theory Spec2Isabelle
  imports Complex_Main "HOL-Library.Product_Lexorder" "HOL-Library.Sublist" "HOL-Library.Multiset"
begin

section \<open>Cross-chain bridge listener: shallow embedding of \<open>script.py\<close>\<close>

text \<open>
  Python integers are unbounded and are modelled as \<open>int\<close>. Exceptions are values: a
  function that can raise returns \<open>exn + 'a\<close> with \<open>Inl\<close> for the raised exception.
  Logging and \<open>time.sleep\<close> have no effect on the data and are left out.
\<close>

subsection \<open>Exceptions\<close>

text \<open>
  The exception classes that occur. The first five are \<open>requests.exceptions\<close> classes
  (all subclasses of \<open>RequestException\<close>); all classes listed are subclasses of
  \<open>Exception\<close>, so a handler \<open>except Exception\<close> catches every value of this type.
\<close>

datatype exn =
    RequestException
  | HTTPError
  | ConnectionError
  | Timeout
  | RequestsJSONDecodeError
  | KeyError
  | TypeError
  | ValueError
  | OtherException

fun is_RequestException :: "exn \<Rightarrow> bool" where
  "is_RequestException RequestException = True"
| "is_RequestException HTTPError = True"
| "is_RequestException ConnectionError = True"
| "is_RequestException Timeout = True"
| "is_RequestException RequestsJSONDecodeError = True"
| "is_RequestException KeyError = False"
| "is_RequestException TypeError = False"
| "is_RequestException ValueError = False"
| "is_RequestException OtherException = False"

subsection \<open>\<open>DepositEvent\<close>\<close>

record DepositEvent =
  sender :: string
  recipient :: string
  amount :: int
  destinationChainId :: int
  nonce :: int
  tx_hash :: string
  log_index :: int

subsection \<open>\<open>StateDB\<close>\<close>

text \<open>
  \<open>self.state\<close> is a dictionary with the keys \<open>'last_processed_block'\<close> and
  \<open>'completed_nonces'\<close>. A dictionary read from a file may lack either key, so each is an
  option: \<open>get_last_processed_block\<close> reads with a default, the other readers subscript
  and raise \<open>KeyError\<close>. The state file is one of: absent, present but not JSON, or a JSON
  object holding such a dictionary (\<open>json.dump\<close> followed by \<open>json.load\<close> is the identity
  on integers and lists of integers). Writing the file is taken to succeed.
\<close>

record state_dict =
  last_processed_block :: "int option"
  completed_nonces :: "int list option"

datatype state_file = Missing | Invalid | Stored state_dict

record StateDB =
  state :: state_dict
  disk :: state_file

fun StateDB_load :: "state_file \<Rightarrow> state_dict" where
  "StateDB_load (Stored d) = d"
| "StateDB_load Missing = \<lparr>last_processed_block = Some 0, completed_nonces = Some []\<rparr>"
| "StateDB_load Invalid = \<lparr>last_processed_block = Some 0, completed_nonces = Some []\<rparr>"

definition StateDB_init :: "state_file \<Rightarrow> StateDB" where
  "StateDB_init f = \<lparr>state = StateDB_load f, disk = f\<rparr>"

definition StateDB_save :: "StateDB \<Rightarrow> StateDB" where
  "StateDB_save db = db\<lparr>disk := Stored (state db)\<rparr>"

definition get_last_processed_block :: "StateDB \<Rightarrow> int" where
  "get_last_processed_block db =
     (case last_processed_block (state db) of None \<Rightarrow> 0 | Some b \<Rightarrow> b)"

definition set_last_processed_block :: "int \<Rightarrow> StateDB \<Rightarrow> StateDB" where
  "set_last_processed_block block_number db =
     StateDB_save (db\<lparr>state := (state db)\<lparr>last_processed_block := Some block_number\<rparr>\<rparr>)"

definition is_nonce_processed :: "int \<Rightarrow> StateDB \<Rightarrow> exn + bool" where
  "is_nonce_processed n db =
     (case completed_nonces (state db) of
        None \<Rightarrow> Inl KeyError
      | Some ns \<Rightarrow> Inr (n \<in> set ns))"

definition mark_nonce_as_processed :: "int \<Rightarrow> StateDB \<Rightarrow> exn + StateDB" where
  "mark_nonce_as_processed n db =
     (case is_nonce_processed n db of
        Inl e \<Rightarrow> Inl e
      | Inr present \<Rightarrow>
          if \<not> present then
            (case completed_nonces (state db) of
               None \<Rightarrow> Inl KeyError
             | Some ns \<Rightarrow>
                 Inr (StateDB_save
                   (db\<lparr>state := (state db)\<lparr>completed_nonces := Some (sort (ns @ [n]))\<rparr>\<rparr>)))
          else Inr db)"

text \<open>A caller that marks the nonces of a list one after the other.\<close>

fun mark_all :: "int list \<Rightarrow> StateDB \<Rightarrow> exn + StateDB" where
  "mark_all [] db = Inr db"
| "mark_all (n # ns) db =
     (case mark_nonce_as_processed n db of
        Inl e \<Rightarrow> Inl e
      | Inr db' \<Rightarrow> mark_all ns db')"

subsection \<open>Decimal text of an integer\<close>

text \<open>The text that an f-string produces for an \<open>int\<close>, used in the mock raw transaction.\<close>

fun str_nat :: "nat \<Rightarrow> string" where
  "str_nat n =
     (if n < 10 then [char_of (48 + n)]
      else str_nat (n div 10) @ [char_of (48 + n mod 10)])"

declare str_nat.simps [simp del]

definition str_int :: "int \<Rightarrow> string" where
  "str_int i = (if i < 0 then CHR ''-'' # str_nat (nat (- i)) else str_nat (nat i))"

subsection \<open>JSON values and the oracle's HTTP response\<close>

text \<open>
  A parsed JSON document. \<open>JObj\<close> is a dictionary, read with \<open>map_of\<close>. Floats are
  modelled as reals: the only float the program produces itself is the literal \<open>50.0\<close>.
\<close>

datatype json =
    JNull
  | JBool bool
  | JNum real
  | JStr string
  | JArr "json list"
  | JObj "(string \<times> json) list"

text \<open>\<open>v[k]\<close> for a string key \<open>k\<close>: only a dictionary can be subscripted by a string.\<close>

fun subscript :: "json \<Rightarrow> string \<Rightarrow> exn + json" where
  "subscript (JObj kvs) k = (case map_of kvs k of None \<Rightarrow> Inl KeyError | Some v \<Rightarrow> Inr v)"
| "subscript JNull k = Inl TypeError"
| "subscript (JBool b) k = Inl TypeError"
| "subscript (JNum x) k = Inl TypeError"
| "subscript (JStr s) k = Inl TypeError"
| "subscript (JArr xs) k = Inl TypeError"

record response =
  status_code :: int
  json_body :: "exn + json"

definition raise_for_status :: "response \<Rightarrow> exn + unit" where
  "raise_for_status r =
     (if 400 \<le> status_code r \<and> status_code r < 600 then Inl HTTPError else Inr ())"

subsection \<open>Transaction receipts\<close>

text \<open>
  A receipt is a dictionary; the three keys of the connector's receipts are modelled, each
  possibly absent. An empty dictionary is falsy.
\<close>

record receipt =
  status :: "int option"
  blockNumber :: "int option"
  transactionHash :: "string option"

definition receipt_truthy :: "receipt option \<Rightarrow> bool" where
  "receipt_truthy r =
     (case r of
        None \<Rightarrow> False
      | Some d \<Rightarrow> d \<noteq> \<lparr>status = None, blockNumber = None, transactionHash = None\<rparr>)"

subsection \<open>The collaborators\<close>

text \<open>
  The connectors, the web3 log decoder, the \<open>requests\<close> library and the builtin \<open>float\<close>
  are outside the program. They are parameters: each call takes the state of the outside
  world \<open>'w\<close> and returns its result (or the exception it raises) with the new world. Raw
  logs have an arbitrary type \<open>'l\<close>; \<open>process_log\<close> stands for decoding one log and
  building the \<open>DepositEvent\<close> from the decoded arguments.
\<close>

record ('w, 'l) env =
  get_latest_block_number :: "'w \<Rightarrow> (exn + int) \<times> 'w"
  get_events :: "int \<Rightarrow> int \<Rightarrow> 'w \<Rightarrow> (exn + 'l list) \<times> 'w"
  process_log :: "'l \<Rightarrow> exn + DepositEvent"
  send_raw_transaction :: "string \<Rightarrow> 'w \<Rightarrow> (exn + string) \<times> 'w"
  get_transaction_receipt :: "string \<Rightarrow> 'w \<Rightarrow> (exn + receipt option) \<times> 'w"
  requests_get :: "'w \<Rightarrow> (exn + response) \<times> 'w"
  py_float :: "json \<Rightarrow> exn + real"

text \<open>The calls a run makes, with what they returned, in the order they were made.\<close>

datatype call =
    FetchGasPrice "exn + real"
  | ExecuteMint DepositEvent "string option"
  | GetTransactionReceipt string "exn + receipt option"
  | MarkNonce int

subsection \<open>\<open>BridgeContractHandler\<close>\<close>

text \<open>The loop of \<open>get_deposit_events\<close>: the first log that fails to decode raises.\<close>

fun decode_logs ::
  "('l \<Rightarrow> exn + DepositEvent) \<Rightarrow> 'l list \<Rightarrow> DepositEvent list \<Rightarrow> exn + DepositEvent list"
where
  "decode_logs pl [] decoded_events = Inr decoded_events"
| "decode_logs pl (l # ls) decoded_events =
     (case pl l of
        Inl e \<Rightarrow> Inl e
      | Inr ev \<Rightarrow> decode_logs pl ls (decoded_events @ [ev]))"

definition get_deposit_events ::
  "('w, 'l) env \<Rightarrow> int \<Rightarrow> int \<Rightarrow> 'w \<Rightarrow> DepositEvent list \<times> 'w"
where
  "get_deposit_events env from_block to_block w =
     (case get_events env from_block to_block w of
        (Inl e, w') \<Rightarrow> ([], w')
      | (Inr raw_logs, w') \<Rightarrow>
          (case decode_logs (process_log env) raw_logs [] of
             Inl e \<Rightarrow> ([], w')
           | Inr decoded_events \<Rightarrow> (decoded_events, w')))"

definition execute_mint ::
  "('w, 'l) env \<Rightarrow> DepositEvent \<Rightarrow> 'w \<Rightarrow> string option \<times> 'w"
where
  "execute_mint env event w =
     (case send_raw_transaction env (''signed_mint_tx_for_nonce_'' @ str_int (nonce event)) w of
        (Inl e, w') \<Rightarrow> (None, w')
      | (Inr h, w') \<Rightarrow> (Some h, w'))"

subsection \<open>\<open>EventProcessor\<close>\<close>

definition block_scan_range :: int where
  "block_scan_range = 100"

text \<open>The body of the \<open>try\<close> in \<open>_fetch_gas_price_from_oracle\<close>.\<close>

definition oracle_request :: "('w, 'l) env \<Rightarrow> 'w \<Rightarrow> (exn + real) \<times> 'w" where
  "oracle_request env w =
     (case requests_get env w of
        (Inl e, w') \<Rightarrow> (Inl e, w')
      | (Inr resp, w') \<Rightarrow>
          (case raise_for_status resp of
             Inl e \<Rightarrow> (Inl e, w')
           | Inr u \<Rightarrow>
               (case json_body resp of
                  Inl e \<Rightarrow> (Inl e, w')
                | Inr gas_data \<Rightarrow>
                    (case subscript gas_data ''result'' of
                       Inl e \<Rightarrow> (Inl e, w')
                     | Inr res \<Rightarrow>
                         (case subscript res ''ProposeGasPrice'' of
                            Inl e \<Rightarrow> (Inl e, w')
                          | Inr v \<Rightarrow> (py_float env v, w'))))))"

definition fetch_gas_price_from_oracle :: "('w, 'l) env \<Rightarrow> 'w \<Rightarrow> (exn + real) \<times> 'w" where
  "fetch_gas_price_from_oracle env w =
     (case oracle_request env w of
        (Inr propose_gas_price, w') \<Rightarrow> (Inr propose_gas_price, w')
      | (Inl e, w') \<Rightarrow> if is_RequestException e then (Inr 50, w') else (Inl e, w'))"

text \<open>
  Step 5 and 6 of \<open>process_single_event\<close>: the \<open>try\<close> that fetches the receipt and marks
  the nonce. Its handler catches every exception, also one raised by the subscript
  \<open>receipt['status']\<close> or by \<open>mark_nonce_as_processed\<close>.
\<close>

definition confirm_mint ::
  "('w, 'l) env \<Rightarrow> DepositEvent \<Rightarrow> string \<Rightarrow> StateDB \<Rightarrow> 'w \<Rightarrow> bool \<times> StateDB \<times> 'w \<times> call list"
where
  "confirm_mint env event mint_tx_hash db w =
     (case get_transaction_receipt env mint_tx_hash w of
        (Inl e, w') \<Rightarrow> (False, db, w', [GetTransactionReceipt mint_tx_hash (Inl e)])
      | (Inr rcpt, w') \<Rightarrow>
          if receipt_truthy rcpt then
            (case rcpt of
               None \<Rightarrow> (False, db, w', [GetTransactionReceipt mint_tx_hash (Inr rcpt)])
             | Some d \<Rightarrow>
                 (case status d of
                    None \<Rightarrow> (False, db, w', [GetTransactionReceipt mint_tx_hash (Inr rcpt)])
                  | Some s \<Rightarrow>
                      if s = 1 then
                        (case mark_nonce_as_processed (nonce event) db of
                           Inl e \<Rightarrow>
                             (False, db, w',
                              [GetTransactionReceipt mint_tx_hash (Inr rcpt),
                               MarkNonce (nonce event)])
                         | Inr db' \<Rightarrow>
                             (True, db', w',
                              [GetTransactionReceipt mint_tx_hash (Inr rcpt),
                               MarkNonce (nonce event)]))
                      else (False, db, w', [GetTransactionReceipt mint_tx_hash (Inr rcpt)])))
          else (False, db, w', [GetTransactionReceipt mint_tx_hash (Inr rcpt)]))"

definition process_single_event ::
  "('w, 'l) env \<Rightarrow> int \<Rightarrow> DepositEvent \<Rightarrow> StateDB \<Rightarrow> 'w
     \<Rightarrow> (exn + bool) \<times> StateDB \<times> 'w \<times> call list"
where
  "process_single_event env target_chain_id event db w =
     (if destinationChainId event \<noteq> target_chain_id then (Inr True, db, w, [])
      else
        (case is_nonce_processed (nonce event) db of
           Inl e \<Rightarrow> (Inl e, db, w, [])
         | Inr present \<Rightarrow>
             if present then (Inr True, db, w, [])
             else
               (case fetch_gas_price_from_oracle env w of
                  (Inl e, w1) \<Rightarrow> (Inl e, db, w1, [FetchGasPrice (Inl e)])
                | (Inr price, w1) \<Rightarrow>
                    (case execute_mint env event w1 of
                       (None, w2) \<Rightarrow>
                         (Inr False, db, w2, [FetchGasPrice (Inr price), ExecuteMint event None])
                     | (Some mint_tx_hash, w2) \<Rightarrow>
                         if mint_tx_hash = [] then
                           (Inr False, db, w2,
                            [FetchGasPrice (Inr price), ExecuteMint event (Some mint_tx_hash)])
                         else
                           (case confirm_mint env event mint_tx_hash db w2 of
                              (ok, db', w3, cs) \<Rightarrow>
                                (Inr ok, db', w3,
                                 [FetchGasPrice (Inr price),
                                  ExecuteMint event (Some mint_tx_hash)] @ cs))))))"

text \<open>
  The \<open>for\<close> loop of \<open>run\<close> over the sorted events. It ends when the list is exhausted,
  at the \<open>break\<close> after an event that was not processed, or with an exception.
\<close>

datatype loop_exit = Exhausted | Break | Raised exn

fun process_events ::
  "('w, 'l) env \<Rightarrow> int \<Rightarrow> DepositEvent list \<Rightarrow> StateDB \<Rightarrow> 'w
     \<Rightarrow> loop_exit \<times> StateDB \<times> 'w \<times> call list"
where
  "process_events env target_chain_id [] db w = (Exhausted, db, w, [])"
| "process_events env target_chain_id (event # events) db w =
     (case process_single_event env target_chain_id event db w of
        (Inl e, db', w', cs) \<Rightarrow> (Raised e, db', w', cs)
      | (Inr success, db', w', cs) \<Rightarrow>
          if \<not> success then (Break, db', w', cs)
          else
            (case process_events env target_chain_id events db' w' of
               (ex, db'', w'', cs') \<Rightarrow> (ex, db'', w'', cs @ cs')))"

text \<open>
  \<open>sorted(events, key=lambda e: (e.nonce, e.log_index))\<close>: tuples compare
  lexicographically, and the sort is stable, as \<open>sort_key\<close> is.
\<close>

definition event_key :: "DepositEvent \<Rightarrow> int \<times> int" where
  "event_key e = (nonce e, log_index e)"

definition sort_events :: "DepositEvent list \<Rightarrow> DepositEvent list" where
  "sort_events events = sort_key event_key events"

definition scan_window :: "int \<Rightarrow> int \<Rightarrow> int \<times> int" where
  "scan_window last_processed latest_block =
     (let from_block = last_processed + 1;
          to_block = min latest_block (from_block + block_scan_range)
      in (from_block, to_block))"

text \<open>
  One pass through the body of \<open>while True\<close>. \<open>Caught e\<close>: the handler of the loop body
  caught \<open>e\<close>; \<open>NoNewBlocks\<close>: the \<open>continue\<close>; \<open>Scanned f t ex\<close>: the window
  \<open>[f, t]\<close> was scanned, the \<open>for\<close> loop ended with \<open>ex\<close> and the statement after the loop
  was executed.
\<close>

datatype iteration = Caught exn | NoNewBlocks | Scanned int int loop_exit

definition run_iteration ::
  "('w, 'l) env \<Rightarrow> int \<Rightarrow> StateDB \<Rightarrow> 'w \<Rightarrow> iteration \<times> StateDB \<times> 'w \<times> call list"
where
  "run_iteration env target_chain_id db w =
     (let last_processed = get_last_processed_block db in
      case get_latest_block_number env w of
        (Inl e, w1) \<Rightarrow> (Caught e, db, w1, [])
      | (Inr latest_block, w1) \<Rightarrow>
          (case scan_window last_processed latest_block of
             (from_block, to_block) \<Rightarrow>
               if from_block > latest_block then (NoNewBlocks, db, w1, [])
               else
                 (case get_deposit_events env from_block to_block w1 of
                    (events, w2) \<Rightarrow>
                      (case (if events \<noteq> []
                             then process_events env target_chain_id (sort_events events) db w2
                             else (Exhausted, db, w2, [])) of
                         (Raised e, db', w3, cs) \<Rightarrow> (Caught e, db', w3, cs)
                       | (Exhausted, db', w3, cs) \<Rightarrow>
                           (Scanned from_block to_block Exhausted,
                            set_last_processed_block to_block db', w3, cs)
                       | (Break, db', w3, cs) \<Rightarrow>
                           (Scanned from_block to_block Break,
                            set_last_processed_block to_block db', w3, cs)))))"

text \<open>The first \<open>k\<close> passes of \<open>run\<close>, which itself never returns.\<close>

fun run :: "nat \<Rightarrow> ('w, 'l) env \<Rightarrow> int \<Rightarrow> StateDB \<Rightarrow> 'w \<Rightarrow> StateDB \<times> 'w \<times> call list" where
  "run 0 env target_chain_id db w = (db, w, [])"
| "run (Suc k) env target_chain_id db w =
     (case run_iteration env target_chain_id db w of
        (it, db', w', cs) \<Rightarrow>
          (case run k env target_chain_id db' w' of
             (db'', w'', cs') \<Rightarrow> (db'', w'', cs @ cs')))"

text \<open>The events handed to the destination handler's \<open>execute_mint\<close>, in call order.\<close>

fun dispatched :: "call list \<Rightarrow> DepositEvent list" where
  "dispatched [] = []"
| "dispatched (ExecuteMint ev r # cs) = ev # dispatched cs"
| "dispatched (FetchGasPrice r # cs) = dispatched cs"
| "dispatched (GetTransactionReceipt h r # cs) = dispatched cs"
| "dispatched (MarkNonce n # cs) = dispatched cs"

subsection \<open>Example collaborators\<close>

text \<open>
  Concrete collaborators on which the program is evaluated. The world is the number of
  transactions sent so far; a raw log is the result of decoding it; the source chain is at
  block \<open>latest\<close> and returns \<open>logs\<close> for every window; the transaction number
  \<open>fail_at\<close> (counting from 0) fails to send; every receipt reports success; the oracle
  answers \<open>reply\<close>. \<open>float_of_json\<close> is \<open>float\<close> on the values that occur here.
\<close>

definition deposit :: "int \<Rightarrow> int \<Rightarrow> int \<Rightarrow> DepositEvent" where
  "deposit n i c =
     \<lparr>sender = ''0xb'', recipient = ''0xc'', amount = 1000, destinationChainId = c,
      nonce = n, tx_hash = ''0xd'', log_index = i\<rparr>"

definition ok_receipt :: "string \<Rightarrow> receipt" where
  "ok_receipt h = \<lparr>status = Some 1, blockNumber = Some 1, transactionHash = Some h\<rparr>"

definition gas_reply :: "exn + response" where
  "gas_reply =
     Inr \<lparr>status_code = 200,
          json_body = Inr (JObj [(''status'', JStr ''1''), (''message'', JStr ''OK''),
            (''result'', JObj [(''ProposeGasPrice'', JNum 25)])])\<rparr>"

definition invalid_key_reply :: "exn + response" where
  "invalid_key_reply =
     Inr \<lparr>status_code = 200,
          json_body = Inr (JObj [(''status'', JStr ''0''), (''message'', JStr ''NOTOK''),
            (''result'', JStr ''Invalid API Key'')])\<rparr>"

definition float_of_json :: "json \<Rightarrow> exn + real" where
  "float_of_json v =
     (case v of
        JNum x \<Rightarrow> Inr x
      | JBool b \<Rightarrow> Inr (if b then 1 else 0)
      | JStr s \<Rightarrow> Inl ValueError
      | JNull \<Rightarrow> Inl TypeError
      | JArr xs \<Rightarrow> Inl TypeError
      | JObj kvs \<Rightarrow> Inl TypeError)"

definition demo_env ::
  "int \<Rightarrow> (exn + DepositEvent) list \<Rightarrow> nat \<Rightarrow> (exn + response)
     \<Rightarrow> (nat, exn + DepositEvent) env"
where
  "demo_env latest logs fail_at reply =
     \<lparr>get_latest_block_number = (\<lambda>w. (Inr latest, w)),
      get_events = (\<lambda>from_block to_block w. (Inr logs, w)),
      process_log = (\<lambda>l. l),
      send_raw_transaction =
        (\<lambda>raw w. (if w = fail_at then Inl ConnectionError else Inr ''0xfeed'', w + 1)),
      get_transaction_receipt = (\<lambda>h w. (Inr (Some (ok_receipt h)), w)),
      requests_get = (\<lambda>w. (reply, w)),
      py_float = float_of_json\<rparr>"

definition db_at :: "int \<Rightarrow> int list \<Rightarrow> StateDB" where
  "db_at b ns =
     \<lparr>state = \<lparr>last_processed_block = Some b, completed_nonces = Some ns\<rparr>,
      disk = Stored \<lparr>last_processed_block = Some b, completed_nonces = Some ns\<rparr>\<rparr>"

text \<open>A store created when no state file exists: nothing has been written yet.\<close>

definition fresh_db :: StateDB where
  "fresh_db = StateDB_init Missing"

text \<open>
  The window of the specification's scenarios: four events arriving out of key order, and
  four events of which the second log is malformed.
\<close>

definition scenario_events :: "DepositEvent list" where
  "scenario_events = [deposit 7 0 97, deposit 5 0 97, deposit 5 1 97, deposit 9 0 97]"

definition four_events :: "DepositEvent list" where
  "four_events = [deposit 3 0 97, deposit 1 0 97, deposit 4 0 97, deposit 2 0 97]"

definition malformed_logs :: "(exn + DepositEvent) list" where
  "malformed_logs = [Inr (deposit 3 0 97), Inl ValueError, Inr (deposit 4 0 97)]"

subsection \<open>The decoder as the specification words it\<close>

text \<open>
  The specification's batch decoding, for comparison with \<open>get_deposit_events\<close>: a log
  that fails to decode is dropped, every other log of the batch is decoded and kept.
\<close>

fun spec_decode_batch :: "('l \<Rightarrow> exn + DepositEvent) \<Rightarrow> 'l list \<Rightarrow> DepositEvent list" where
  "spec_decode_batch pl [] = []"
| "spec_decode_batch pl (l # ls) =
     (case pl l of
        Inl e \<Rightarrow> spec_decode_batch pl ls
      | Inr ev \<Rightarrow> ev # spec_decode_batch pl ls)"

section \<open>Properties of \<open>StateDB\<close>\<close>

lemmas eval_defs =
  demo_env_def deposit_def ok_receipt_def gas_reply_def invalid_key_reply_def
  float_of_json_def db_at_def fresh_db_def StateDB_init_def
  process_single_event_def confirm_mint_def execute_mint_def fetch_gas_price_from_oracle_def
  oracle_request_def raise_for_status_def receipt_truthy_def is_nonce_processed_def
  mark_nonce_as_processed_def StateDB_save_def set_last_processed_block_def
  get_last_processed_block_def get_deposit_events_def run_iteration_def scan_window_def
  block_scan_range_def sort_events_def event_key_def

lemma mark_present:
  "completed_nonces (state db) = Some ns \<Longrightarrow> n \<in> set ns \<Longrightarrow>
   mark_nonce_as_processed n db = Inr db"
  by (simp add: mark_nonce_as_processed_def is_nonce_processed_def)

lemma mark_absent:
  "completed_nonces (state db) = Some ns \<Longrightarrow> n \<notin> set ns \<Longrightarrow>
   mark_nonce_as_processed n db =
     Inr (StateDB_save (db\<lparr>state := (state db)\<lparr>completed_nonces := Some (sort (ns @ [n]))\<rparr>\<rparr>))"
  by (simp add: mark_nonce_as_processed_def is_nonce_processed_def)

lemma mark_missing_key:
  "completed_nonces (state db) = None \<Longrightarrow> mark_nonce_as_processed n db = Inl KeyError"
  by (simp add: mark_nonce_as_processed_def is_nonce_processed_def)

lemma mark_result_contains:
  assumes "mark_nonce_as_processed n db = Inr db'"
  shows "\<exists>ns'. completed_nonces (state db') = Some ns' \<and> n \<in> set ns'"
proof (cases "completed_nonces (state db)")
  case None
  with assms show ?thesis by (simp add: mark_missing_key)
next
  case (Some ns)
  show ?thesis
  proof (cases "n \<in> set ns")
    case True
    with Some assms show ?thesis by (simp add: mark_present)
  next
    case False
    with Some assms show ?thesis by (auto simp: mark_absent StateDB_save_def)
  qed
qed

lemma mark_step:
  assumes "completed_nonces (state db) = Some ns" "sorted ns" "distinct ns"
  shows "\<exists>db' ns'. mark_nonce_as_processed n db = Inr db' \<and>
           completed_nonces (state db') = Some ns' \<and> sorted ns' \<and> distinct ns' \<and>
           set ns' = insert n (set ns)"
proof (cases "n \<in> set ns")
  case True
  with assms show ?thesis by (auto simp: mark_present)
next
  case False
  with assms show ?thesis by (simp add: mark_absent StateDB_save_def)
qed


text \<open>
  C6: marking a nonce is idempotent. A second call with the same nonce returns the store
  that the first call returned; a call with a nonce that is already in the list returns
  the store as it is, the file included (nothing is written, also when the file does not
  hold the state in memory); and when the list is there the call does not raise and the
  list afterwards is the old one, or the old one with the nonce inserted.
\<close>

theorem mark_nonce_idempotent:
  "(mark_nonce_as_processed n db = Inr db' \<longrightarrow> mark_nonce_as_processed n db' = Inr db')
   \<and> (completed_nonces (state db) = Some ns \<and> n \<in> set ns \<longrightarrow>
        mark_nonce_as_processed n db = Inr db)
   \<and> (completed_nonces (state db) = Some ns \<longrightarrow>
        (\<exists>db1. mark_nonce_as_processed n db = Inr db1 \<and>
           completed_nonces (state db1) = Some (if n \<in> set ns then ns else sort (ns @ [n]))))"
proof (intro conjI impI)
  assume "mark_nonce_as_processed n db = Inr db'"
  from mark_result_contains[OF this]
  show "mark_nonce_as_processed n db' = Inr db'" by (auto simp: mark_present)
next
  assume "completed_nonces (state db) = Some ns \<and> n \<in> set ns"
  then show "mark_nonce_as_processed n db = Inr db" by (simp add: mark_present)
next
  assume "completed_nonces (state db) = Some ns"
  then show "\<exists>db1. mark_nonce_as_processed n db = Inr db1 \<and>
      completed_nonces (state db1) = Some (if n \<in> set ns then ns else sort (ns @ [n]))"
    by (cases "n \<in> set ns") (simp_all add: mark_present mark_absent StateDB_save_def)
qed

theorem mark_nonce_idempotent_witness:
  "mark_nonce_as_processed 4 (db_at 100 [3, 5]) = Inr (db_at 100 [3, 4, 5])
   \<and> mark_nonce_as_processed 4 (db_at 100 [3, 4, 5]) = Inr (db_at 100 [3, 4, 5])
   \<and> mark_nonce_as_processed 4 ((db_at 100 [3, 4, 5])\<lparr>disk := Missing\<rparr>)
       = Inr ((db_at 100 [3, 4, 5])\<lparr>disk := Missing\<rparr>)"
  using mark_nonce_idempotent [of 4 "db_at 100 [3, 5]" "db_at 100 [3, 4, 5]" "[3, 5]"]
    mark_nonce_idempotent [of 4 "(db_at 100 [3, 4, 5])\<lparr>disk := Missing\<rparr>"
      "(db_at 100 [3, 4, 5])\<lparr>disk := Missing\<rparr>" "[3, 4, 5]"]
  by (simp add: db_at_def mark_nonce_as_processed_def is_nonce_processed_def StateDB_save_def)

text \<open>
  C10: a duplicate-free ascending list of completed nonces stays duplicate-free and
  ascending. Marking any sequence of nonces \<open>ms\<close> succeeds, and the list afterwards is
  ascending, has no duplicate and holds exactly the old nonces and those of \<open>ms\<close>;
  \<open>set_last_processed_block\<close> leaves the list as it is.
\<close>

theorem completed_nonces_sorted_distinct:
  assumes "completed_nonces (state db) = Some ns" and "sorted ns" and "distinct ns"
  shows "(\<exists>db' ns'. mark_all ms db = Inr db' \<and> completed_nonces (state db') = Some ns' \<and>
            sorted ns' \<and> distinct ns' \<and> set ns' = set ns \<union> set ms)
         \<and> completed_nonces (state (set_last_processed_block b db)) = Some ns"
proof
  show "\<exists>db' ns'. mark_all ms db = Inr db' \<and> completed_nonces (state db') = Some ns' \<and>
            sorted ns' \<and> distinct ns' \<and> set ns' = set ns \<union> set ms"
    using assms
  proof (induction ms arbitrary: db ns)
    case Nil
    then show ?case by simp
  next
    case (Cons m ms)
    from mark_step[OF Cons.prems, of m] obtain db1 ns1 where
      one: "mark_nonce_as_processed m db = Inr db1"
      and inv: "completed_nonces (state db1) = Some ns1" "sorted ns1" "distinct ns1"
      and elems: "set ns1 = insert m (set ns)"
      by blast
    from Cons.IH[OF inv] obtain db' ns' where
      "mark_all ms db1 = Inr db'" "completed_nonces (state db') = Some ns'"
      "sorted ns'" "distinct ns'" "set ns' = set ns1 \<union> set ms"
      by blast
    with one elems show ?case by auto
  qed
next
  show "completed_nonces (state (set_last_processed_block b db)) = Some ns"
    using assms(1) by (simp add: set_last_processed_block_def StateDB_save_def)
qed

theorem completed_nonces_sorted_distinct_witness:
  "completed_nonces (state (db_at 100 [2, 5])) = Some [2, 5] \<and> sorted [2, 5 :: int] \<and>
   distinct [2, 5 :: int] \<and>
   mark_all [9, 5, 3, 9] (db_at 100 [2, 5]) = Inr (db_at 100 [2, 3, 5, 9]) \<and>
   completed_nonces (state (set_last_processed_block 105 (db_at 100 [2, 5]))) = Some [2, 5]"
  using completed_nonces_sorted_distinct [of "db_at 100 [2, 5]" "[2, 5]" "[9, 5, 3, 9]" 105]
  by (simp add: db_at_def mark_nonce_as_processed_def is_nonce_processed_def StateDB_save_def
        set_last_processed_block_def)



section \<open>Properties of \<open>process_single_event\<close>\<close>

lemma dispatched_append: "dispatched (cs @ cs') = dispatched cs @ dispatched cs'"
  by (induction cs rule: dispatched.induct) simp_all


lemma confirm_mint_dispatched:
  "confirm_mint env event h db w = (ok, db', w', cs) \<Longrightarrow> dispatched cs = []"
  by (auto simp: confirm_mint_def split: prod.splits sum.splits option.splits if_splits)


lemma process_single_event_dispatched:
  assumes "process_single_event env t event db w = (r, db', w', cs)"
  shows "dispatched cs = [] \<or> dispatched cs = [event]"
  using assms
  by (auto simp: process_single_event_def dest: confirm_mint_dispatched
           split: prod.splits sum.splits option.splits if_splits)


text \<open>
  C7: an event for another chain, and an event whose nonce is already completed, is
  settled at once: \<open>process_single_event\<close> returns \<open>True\<close>, makes no call at all (no oracle
  lookup, no \<open>execute_mint\<close>, no receipt) and leaves store and world as they were.
\<close>

theorem skipped_events_not_dispatched:
  assumes "destinationChainId event \<noteq> target_chain_id
           \<or> (\<exists>ns. completed_nonces (state db) = Some ns \<and> nonce event \<in> set ns)"
  shows "process_single_event env target_chain_id event db w = (Inr True, db, w, [])"
  using assms
  by (auto simp: process_single_event_def is_nonce_processed_def)

theorem skipped_events_not_dispatched_witness:
  "destinationChainId (deposit 7 0 56) \<noteq> 97 \<and>
   process_single_event (demo_env 105 [] 9 gas_reply) 97 (deposit 7 0 56) (db_at 100 []) 0
     = (Inr True, db_at 100 [], 0, []) \<and>
   completed_nonces (state (db_at 100 [5, 7])) = Some [5, 7] \<and>
   nonce (deposit 7 0 97) \<in> set [5, 7] \<and>
   process_single_event (demo_env 105 [] 9 gas_reply) 97 (deposit 7 0 97) (db_at 100 [5, 7]) 0
     = (Inr True, db_at 100 [5, 7], 0, [])"
  using skipped_events_not_dispatched
      [of "deposit 7 0 56" 97 "db_at 100 []" "demo_env 105 [] 9 gas_reply" 0]
    skipped_events_not_dispatched
      [of "deposit 7 0 97" 97 "db_at 100 [5, 7]" "demo_env 105 [] 9 gas_reply" 0]
  by (simp add: deposit_def db_at_def)




section \<open>Processing order\<close>

lemma process_events_subseq:
  "process_events env t evs db w = (ex, db', w', cs) \<Longrightarrow> subseq (dispatched cs) evs"
proof (induction evs arbitrary: db w ex db' w' cs)
  case Nil
  then show ?case by simp
next
  case (Cons ev evs)
  obtain r db1 w1 cs1 where one: "process_single_event env t ev db w = (r, db1, w1, cs1)"
    by (metis prod_cases4)
  from process_single_event_dispatched[OF one]
  have first: "subseq (dispatched cs1) [ev]" by auto
  have stop: "subseq (dispatched cs1) (ev # evs)"
    using list_emb_append_mono[OF first list_emb_Nil, of evs] by simp
  show ?case
  proof (cases r)
    case (Inl e)
    with Cons.prems one have "cs = cs1" by simp
    with stop show ?thesis by simp
  next
    case (Inr success)
    show ?thesis
    proof (cases success)
      case False
      with Inr Cons.prems one have "cs = cs1" by simp
      with stop show ?thesis by simp
    next
      case True
      obtain ex2 db2 w2 cs2 where rest: "process_events env t evs db1 w1 = (ex2, db2, w2, cs2)"
        by (metis prod_cases4)
      with True Inr Cons.prems one have cs: "cs = cs1 @ cs2" by simp
      from Cons.IH[OF rest] have "subseq (dispatched cs2) evs" .
      from list_emb_append_mono[OF first this] cs show ?thesis
        by (simp add: dispatched_append)
    qed
  qed
qed

lemma sorted_wrt_subseq:
  "subseq xs ys \<Longrightarrow> sorted_wrt P ys \<Longrightarrow> sorted_wrt P xs"
proof (induction rule: list_emb.induct)
  case (list_emb_Nil ys)
  then show ?case by simp
next
  case (list_emb_Cons xs ys y)
  then show ?case by simp
next
  case (list_emb_Cons2 x y xs ys)
  then show ?case by (auto dest: list_emb_set)
qed

lemma filter_same_key:
  "distinct (map f zs) \<Longrightarrow> k \<in> set zs \<Longrightarrow> filter (\<lambda>x. f k = f x) zs = [k]"
proof (induction zs)
  case Nil
  then show ?case by simp
next
  case (Cons z zs)
  show ?case
  proof (cases "k = z")
    case True
    with Cons.prems have "\<forall>x\<in>set zs. f k \<noteq> f x" by auto
    then have "filter (\<lambda>x. f k = f x) zs = []" by (simp add: filter_empty_conv)
    with True show ?thesis by simp
  next
    case False
    with Cons.prems have "k \<in> set zs" by simp
    moreover from this Cons.prems have "f k \<noteq> f z" by (auto simp: image_iff)
    ultimately show ?thesis using Cons by simp
  qed
qed

lemma distinct_keys_perm:
  assumes "distinct (map f xs)" "mset ys = mset xs"
  shows "distinct (map f ys)"
proof -
  from assms(2) have "mset (map f ys) = mset (map f xs)" by simp
  with assms(1) show ?thesis by (metis mset_eq_imp_distinct_iff)
qed

lemma sort_events_strict:
  assumes "distinct (map event_key events)"
  shows "sorted_wrt (<) (map event_key (sort_events events))"
proof -
  have "mset (sort_key event_key events) = mset events" by simp
  with assms have "distinct (map event_key (sort_key event_key events))"
    by (rule distinct_keys_perm)
  then show ?thesis by (simp add: sort_events_def strict_sorted_iff)
qed

lemma sort_events_arrival:
  assumes "distinct (map event_key xs)" "mset ys = mset xs"
  shows "sort_events ys = sort_events xs"
  unfolding sort_events_def
proof (rule properties_for_sort_key)
  show "mset (sort_key event_key xs) = mset ys" using assms(2) by simp
  show "sorted (map event_key (sort_key event_key xs))" by simp
  fix k assume k: "k \<in> set (sort_key event_key xs)"
  have dx: "distinct (map event_key (sort_key event_key xs))"
    using assms(1) by (rule distinct_keys_perm) simp
  have dy: "distinct (map event_key ys)" using assms by (rule distinct_keys_perm)
  from k assms(2) have ky: "k \<in> set ys" by (metis mset_eq_setD set_sort)
  show "filter (\<lambda>x. event_key k = event_key x) (sort_key event_key xs) =
        filter (\<lambda>x. event_key k = event_key x) ys"
    using filter_same_key[OF dx k] filter_same_key[OF dy ky] by simp
qed

lemma run_iteration_calls:
  assumes "run_iteration env t db w = (it, db', w', cs)"
    and "get_latest_block_number env w = (Inr latest, w1)"
    and "get_deposit_events env (get_last_processed_block db + 1)
           (min latest (get_last_processed_block db + 1 + block_scan_range)) w1 = (events, w2)"
  shows "cs = [] \<or> (\<exists>ex db1. process_events env t (sort_events events) db w2 = (ex, db1, w', cs))"
  using assms
  by (auto simp: run_iteration_def scan_window_def Let_def
           split: prod.splits sum.splits if_splits loop_exit.splits)

text \<open>
  C5: events with distinct keys \<open>(nonce, log_index)\<close> are processed in strictly ascending
  key order. The list the loop runs over is strictly ascending and is the same for every
  arrival order of the same events; the events handed to \<open>execute_mint\<close> by the loop, and
  by a whole pass of \<open>run\<close> over the events decoded for its window, are a subsequence of
  that list, so their keys are strictly ascending too.
\<close>

theorem dispatch_in_key_order:
  assumes "distinct (map event_key events)"
  shows "sorted_wrt (<) (map event_key (sort_events events))
       \<and> (mset arrived = mset events \<longrightarrow> sort_events arrived = sort_events events)
       \<and> (process_events env t (sort_events events) db w = (ex, db', w', cs) \<longrightarrow>
            subseq (dispatched cs) (sort_events events) \<and>
            sorted_wrt (<) (map event_key (dispatched cs)))
       \<and> (get_latest_block_number env w = (Inr latest, w1) \<and>
          get_deposit_events env (get_last_processed_block db + 1)
            (min latest (get_last_processed_block db + 1 + block_scan_range)) w1 = (events, w2) \<and>
          run_iteration env t db w = (it, db2, w3, cs2) \<longrightarrow>
            subseq (dispatched cs2) (sort_events events) \<and>
            sorted_wrt (<) (map event_key (dispatched cs2)))"
proof (intro conjI impI)
  show strict: "sorted_wrt (<) (map event_key (sort_events events))"
    using assms by (rule sort_events_strict)
  show "sort_events arrived = sort_events events" if "mset arrived = mset events"
    using assms that by (rule sort_events_arrival)
  have ordered: "sorted_wrt (<) (map event_key ds)" if "subseq ds (sort_events events)" for ds
    using subseq_map[OF that, of event_key] strict by (rule sorted_wrt_subseq)
  show sub: "subseq (dispatched cs) (sort_events events)"
    if "process_events env t (sort_events events) db w = (ex, db', w', cs)"
    using that by (rule process_events_subseq)
  show "sorted_wrt (<) (map event_key (dispatched cs))"
    if "process_events env t (sort_events events) db w = (ex, db', w', cs)"
    using sub[OF that] by (rule ordered)
  assume run: "get_latest_block_number env w = (Inr latest, w1) \<and>
          get_deposit_events env (get_last_processed_block db + 1)
            (min latest (get_last_processed_block db + 1 + block_scan_range)) w1 = (events, w2) \<and>
          run_iteration env t db w = (it, db2, w3, cs2)"
  then have "cs2 = [] \<or>
      (\<exists>ex db1. process_events env t (sort_events events) db w2 = (ex, db1, w3, cs2))"
    using run_iteration_calls[of env t db w it db2 w3 cs2 latest w1 events w2] by simp
  then show sub2: "subseq (dispatched cs2) (sort_events events)"
    by (auto dest: process_events_subseq)
  then show "sorted_wrt (<) (map event_key (dispatched cs2))" by (rule ordered)
qed


theorem dispatch_in_key_order_witness:
  "distinct (map event_key scenario_events) \<and>
   sort_events scenario_events
     = [deposit 5 0 97, deposit 5 1 97, deposit 7 0 97, deposit 9 0 97] \<and>
   sort_events (rev scenario_events) = sort_events scenario_events \<and>
   run_iteration (demo_env 105 (map Inr scenario_events) 9 gas_reply) 97 (db_at 100 []) 0
     = (Scanned 101 105 Exhausted, db_at 105 [5, 7, 9], 3,
        [FetchGasPrice (Inr 25), ExecuteMint (deposit 5 0 97) (Some ''0xfeed''),
         GetTransactionReceipt ''0xfeed'' (Inr (Some (ok_receipt ''0xfeed''))), MarkNonce 5,
         FetchGasPrice (Inr 25), ExecuteMint (deposit 7 0 97) (Some ''0xfeed''),
         GetTransactionReceipt ''0xfeed'' (Inr (Some (ok_receipt ''0xfeed''))), MarkNonce 7,
         FetchGasPrice (Inr 25), ExecuteMint (deposit 9 0 97) (Some ''0xfeed''),
         GetTransactionReceipt ''0xfeed'' (Inr (Some (ok_receipt ''0xfeed''))), MarkNonce 9]) \<and>
   sorted_wrt (<) (map event_key [deposit 5 0 97, deposit 7 0 97, deposit 9 0 97])"
proof -
  let ?env = "demo_env 105 (map Inr scenario_events) 9 gas_reply"
  let ?cs = "[FetchGasPrice (Inr 25), ExecuteMint (deposit 5 0 97) (Some ''0xfeed''),
         GetTransactionReceipt ''0xfeed'' (Inr (Some (ok_receipt ''0xfeed''))), MarkNonce 5,
         FetchGasPrice (Inr 25), ExecuteMint (deposit 7 0 97) (Some ''0xfeed''),
         GetTransactionReceipt ''0xfeed'' (Inr (Some (ok_receipt ''0xfeed''))), MarkNonce 7,
         FetchGasPrice (Inr 25), ExecuteMint (deposit 9 0 97) (Some ''0xfeed''),
         GetTransactionReceipt ''0xfeed'' (Inr (Some (ok_receipt ''0xfeed''))), MarkNonce 9]"
  have d: "distinct (map event_key scenario_events)"
    by (simp add: scenario_events_def event_key_def deposit_def)
  have s: "sort_events scenario_events
     = [deposit 5 0 97, deposit 5 1 97, deposit 7 0 97, deposit 9 0 97]"
    by (simp add: scenario_events_def sort_events_def event_key_def deposit_def)
  have m: "mset (rev scenario_events) = mset scenario_events" by simp
  have l: "get_latest_block_number ?env 0 = (Inr 105, 0)" by (simp add: demo_env_def)
  have g: "get_deposit_events ?env (get_last_processed_block (db_at 100 []) + 1)
        (min 105 (get_last_processed_block (db_at 100 []) + 1 + block_scan_range)) 0
      = (scenario_events, 0)"
    by (simp add: scenario_events_def get_deposit_events_def demo_env_def)
  have p: "process_events ?env 97 (sort_events scenario_events) (db_at 100 []) 0
      = (Exhausted, db_at 100 [5, 7, 9], 3, ?cs)"
    unfolding s by (simp add: eval_defs)
  have r: "run_iteration ?env 97 (db_at 100 []) 0
      = (Scanned 101 105 Exhausted, db_at 105 [5, 7, 9], 3, ?cs)"
    by (simp add: eval_defs scenario_events_def)
  from dispatch_in_key_order
    [OF d, of "rev scenario_events" ?env 97 "db_at 100 []" 0 Exhausted "db_at 100 [5, 7, 9]" 3 ?cs
       105 0 0 "Scanned 101 105 Exhausted" "db_at 105 [5, 7, 9]" 3 ?cs]
    d s m l g p r
  show ?thesis by simp
qed


section \<open>Decoding a batch of logs\<close>

lemma decode_logs_all:
  "map pl ls = map Inr evs \<Longrightarrow> decode_logs pl ls acc = Inr (acc @ evs)"
proof (induction ls arbitrary: acc evs)
  case Nil
  then show ?case by simp
next
  case (Cons l ls)
  then obtain ev evs' where "evs = ev # evs'" "pl l = Inr ev" "map pl ls = map Inr evs'"
    by (cases evs) auto
  with Cons.IH[of evs' "acc @ [ev]"] show ?case by simp
qed

lemma decode_logs_fail:
  "\<exists>l\<in>set ls. \<exists>e. pl l = Inl e \<Longrightarrow> \<exists>e. decode_logs pl ls acc = Inl e"
proof (induction ls arbitrary: acc)
  case Nil
  then show ?case by simp
next
  case (Cons l ls)
  show ?case
  proof (cases "pl l")
    case (Inl e)
    then show ?thesis by simp
  next
    case (Inr ev)
    with Cons.prems have "\<exists>l\<in>set ls. \<exists>e. pl l = Inl e" by auto
    from Cons.IH[OF this, of "acc @ [ev]"] Inr show ?thesis by simp
  qed
qed

text \<open>
  C2, as the code has it: decoding a batch is all or nothing. If every log of the batch
  decodes, \<open>get_deposit_events\<close> returns the decoded events in the order of the logs; if
  some log fails to decode, it returns the empty list: the logs that do decode are dropped
  with it. In both cases it returns, so no exception reaches the caller.
\<close>

theorem get_deposit_events_all_or_nothing:
  assumes "get_events env from_block to_block w = (Inr raw_logs, w')"
  shows "(map (process_log env) raw_logs = map Inr evs \<longrightarrow>
            get_deposit_events env from_block to_block w = (evs, w'))
       \<and> ((\<exists>l\<in>set raw_logs. \<exists>e. process_log env l = Inl e) \<longrightarrow>
            get_deposit_events env from_block to_block w = ([], w'))"
proof (intro conjI impI)
  assume "map (process_log env) raw_logs = map Inr evs"
  from decode_logs_all[OF this, of "[]"] assms
  show "get_deposit_events env from_block to_block w = (evs, w')"
    by (simp add: get_deposit_events_def)
next
  assume "\<exists>l\<in>set raw_logs. \<exists>e. process_log env l = Inl e"
  from decode_logs_fail[OF this, of "[]"] assms
  show "get_deposit_events env from_block to_block w = ([], w')"
    by (auto simp: get_deposit_events_def)
qed

theorem get_deposit_events_all_or_nothing_witness:
  "get_events (demo_env 105 malformed_logs 9 gas_reply) 101 105 0 = (Inr malformed_logs, 0) \<and>
   Inl ValueError \<in> set malformed_logs \<and>
   get_deposit_events (demo_env 105 malformed_logs 9 gas_reply) 101 105 0 = ([], 0) \<and>
   get_events (demo_env 105 (map Inr four_events) 9 gas_reply) 101 105 0
     = (Inr (map Inr four_events), 0) \<and>
   get_deposit_events (demo_env 105 (map Inr four_events) 9 gas_reply) 101 105 0
     = (four_events, 0)"
proof -
  have bad: "get_events (demo_env 105 malformed_logs 9 gas_reply) 101 105 0
      = (Inr malformed_logs, 0)"
    by (simp add: demo_env_def)
  have good: "get_events (demo_env 105 (map Inr four_events) 9 gas_reply) 101 105 0
      = (Inr (map Inr four_events), 0)"
    by (simp add: demo_env_def)
  have m: "Inl ValueError \<in> set malformed_logs" by (simp add: malformed_logs_def)
  have pl: "process_log (demo_env 105 ls k rp) = (\<lambda>l. l)" for ls k rp
    by (simp add: demo_env_def)
  from get_deposit_events_all_or_nothing[OF bad, of "[]"]
    get_deposit_events_all_or_nothing[OF good, of four_events] bad good m
  show ?thesis by (auto simp: pl)
qed

text \<open>
  A batch of three logs of which the second is malformed: the code returns no event, where
  dropping only the malformed log keeps the first and the third.
\<close>

theorem malformed_log_drops_batch_counterexample:
  "get_deposit_events (demo_env 105 malformed_logs 9 gas_reply) 101 105 0 = ([], 0) \<and>
   spec_decode_batch (process_log (demo_env 105 malformed_logs 9 gas_reply)) malformed_logs
     = [deposit 3 0 97, deposit 4 0 97] \<and>
   fst (get_deposit_events (demo_env 105 malformed_logs 9 gas_reply) 101 105 0)
     \<noteq> spec_decode_batch (process_log (demo_env 105 malformed_logs 9 gas_reply)) malformed_logs"
  by (simp add: get_deposit_events_def demo_env_def malformed_logs_def)

section \<open>The fee oracle\<close>




section \<open>The scan window and the commit of a pass\<close>

lemma scan_window_size:
  "scan_window last_processed latest_block = (from_block, to_block) \<Longrightarrow>
   from_block = last_processed + 1 \<and>
   to_block - from_block + 1 \<le> block_scan_range + 1 \<and>
   (last_processed + 1 + block_scan_range \<le> latest_block \<longrightarrow>
      to_block - from_block + 1 = block_scan_range + 1)"
  by (auto simp: scan_window_def Let_def)

lemma run_iteration_commits_after_break:
  assumes "run_iteration env t db w = (Scanned from_block to_block Break, db', w', cs)"
  shows "get_last_processed_block db' = to_block \<and> get_last_processed_block db < to_block"
  using assms
  by (auto simp: run_iteration_def scan_window_def Let_def get_last_processed_block_def
        set_last_processed_block_def StateDB_save_def block_scan_range_def
      split: prod.splits sum.splits if_splits loop_exit.splits)

text \<open>
  C1, at the specification's scenario: the store is at block 100, the chain at block 105,
  the window holds four events and sending the third mint fails. The loop stops there
  (the fourth event is not processed), and the pass then commits block 105. The next pass
  finds no new block: in three passes of \<open>run\<close> the third event is handed to
  \<open>execute_mint\<close> once and the fourth never, although only that one send fails.
\<close>

theorem failed_window_is_committed:
  "run_iteration (demo_env 105 (map Inr four_events) 2 gas_reply) 97 (db_at 100 []) 0
     = (Scanned 101 105 Break, db_at 105 [1, 2], 3,
        [FetchGasPrice (Inr 25), ExecuteMint (deposit 1 0 97) (Some ''0xfeed''),
         GetTransactionReceipt ''0xfeed'' (Inr (Some (ok_receipt ''0xfeed''))), MarkNonce 1,
         FetchGasPrice (Inr 25), ExecuteMint (deposit 2 0 97) (Some ''0xfeed''),
         GetTransactionReceipt ''0xfeed'' (Inr (Some (ok_receipt ''0xfeed''))), MarkNonce 2,
         FetchGasPrice (Inr 25), ExecuteMint (deposit 3 0 97) None]) \<and>
   get_last_processed_block (db_at 100 []) = 100 \<and>
   get_last_processed_block (db_at 105 [1, 2]) = 105 \<and>
   run_iteration (demo_env 105 (map Inr four_events) 2 gas_reply) 97 (db_at 105 [1, 2]) 3
     = (NoNewBlocks, db_at 105 [1, 2], 3, []) \<and>
   run 3 (demo_env 105 (map Inr four_events) 2 gas_reply) 97 (db_at 100 []) 0
     = (db_at 105 [1, 2], 3,
        [FetchGasPrice (Inr 25), ExecuteMint (deposit 1 0 97) (Some ''0xfeed''),
         GetTransactionReceipt ''0xfeed'' (Inr (Some (ok_receipt ''0xfeed''))), MarkNonce 1,
         FetchGasPrice (Inr 25), ExecuteMint (deposit 2 0 97) (Some ''0xfeed''),
         GetTransactionReceipt ''0xfeed'' (Inr (Some (ok_receipt ''0xfeed''))), MarkNonce 2,
         FetchGasPrice (Inr 25), ExecuteMint (deposit 3 0 97) None])"
  by (simp add: eval_defs four_events_def numeral_3_eq_3)

text \<open>
  C3, at a store at block 0 and a chain at block 1000: the window is \<open>[1, 101]\<close>, which
  is 101 blocks, one more than \<open>block_scan_range\<close>.
\<close>

theorem scan_window_spans_101_blocks:
  "scan_window 0 1000 = (1, 101) \<and> block_scan_range = 100 \<and>
   run_iteration (demo_env 1000 [] 9 gas_reply) 97 (db_at 0 []) 0
     = (Scanned 1 101 Exhausted, db_at 101 [], 0, [])"
  by (simp add: eval_defs)


end
